theory Spec2Isabelle
  imports Complex_Main "HOL-Library.Log_Nat"
begin

section \<open>The image resizing script\<close>

text \<open>
  The repository is one straight-line Python script, \<^verbatim>\<open>scripts/resize_image.py\<close>:
  it opens an image, computes a height for the fixed width 1920, resizes, saves the
  result as PNG and prints five lines.  What the script computes itself is arithmetic
  on Python integers and floats and string formatting; decoding, resampling and
  encoding belong to the imaging library and are parameters of the model.
\<close>

subsection \<open>Python errors\<close>

datatype py_error =
    FileNotFoundError
  | UnidentifiedImageError
  | ValueError
  | OSError
  | ZeroDivisionError
  | OverflowError

subsection \<open>Python floats\<close>

text \<open>
  A Python float is an IEEE 754 binary64 value.  A finite one is kept as its sign
  and its exact magnitude, a non-negative rational; the sign is separate because
  \<^verbatim>\<open>-0.0\<close> prints differently from \<^verbatim>\<open>0.0\<close>.
\<close>

datatype pyfloat = Finite bool rat | Infinity bool | NaN

text \<open>
  \<open>floor_log2 x\<close> is the binary exponent of a positive rational, the integer \<open>e\<close> with
  \<open>2 powi e \<le> x < 2 powi (e + 1)\<close>, found from the bit lengths of numerator and
  denominator.
\<close>

definition floor_log2 :: "rat \<Rightarrow> int" where
  "floor_log2 x =
     (let (p, q) = quotient_of x; k = bitlen p - bitlen q
      in if (if 0 \<le> k then q * 2 ^ nat k \<le> p else q \<le> p * 2 ^ nat (- k)) then k else k - 1)"

text \<open>Rounding to the nearest integer, ties to the even one.\<close>

definition round_half_even :: "rat \<Rightarrow> int" where
  "round_half_even x =
     (let n = \<lfloor>x\<rfloor>; d = x - of_int n
      in if d < 1 / 2 then n else if 1 / 2 < d then n + 1 else if even n then n else n + 1)"

text \<open>
  The spacing of binary64 values around a positive \<open>x\<close>: 53 significant bits, and the
  fixed spacing \<open>2 powi (- 1074)\<close> below the smallest normal number \<open>2 powi (- 1022)\<close>.
\<close>

definition quantum :: "rat \<Rightarrow> rat" where
  "quantum x = 2 powi (max (floor_log2 x) (- 1022) - 52)"

text \<open>
  Round-to-nearest, ties-to-even, of a non-negative magnitude.  A result that reaches
  \<open>2 ^ 1024\<close> stands for overflow: the largest finite binary64 value is just below.
\<close>

definition overflow_threshold :: int where
  "overflow_threshold = 2 ^ 1024"

definition round_binary64 :: "rat \<Rightarrow> rat" where
  "round_binary64 x =
     (if x = 0 then 0 else quantum x * of_int (round_half_even (x / quantum x)))"

text \<open>
  Python's \<^verbatim>\<open>a / b\<close> on two \<^verbatim>\<open>int\<close>s: true division, the correctly rounded binary64
  quotient.  It raises \<^verbatim>\<open>ZeroDivisionError\<close> for \<open>b = 0\<close> and \<^verbatim>\<open>OverflowError\<close> when the
  quotient is too large for a float.
\<close>

definition int_true_divide :: "int \<Rightarrow> int \<Rightarrow> py_error + pyfloat" where
  "int_true_divide a b =
     (if b = 0 then Inl ZeroDivisionError
      else let m = round_binary64 \<bar>of_int a / of_int b\<bar>
           in if of_int overflow_threshold \<le> m then Inl OverflowError
              else Inr (Finite ((a < 0) \<noteq> (b < 0)) m))"

text \<open>Python's \<^verbatim>\<open>x * y\<close> on floats; an overflowing product is an infinity.\<close>

fun float_mul :: "pyfloat \<Rightarrow> pyfloat \<Rightarrow> pyfloat" where
  "float_mul (Finite s m) (Finite t k) =
     (let r = round_binary64 (m * k)
      in if of_int overflow_threshold \<le> r then Infinity (s \<noteq> t) else Finite (s \<noteq> t) r)"
| "float_mul (Finite s m) (Infinity t) = (if m = 0 then NaN else Infinity (s \<noteq> t))"
| "float_mul (Infinity s) (Finite t k) = (if k = 0 then NaN else Infinity (s \<noteq> t))"
| "float_mul (Infinity s) (Infinity t) = Infinity (s \<noteq> t)"
| "float_mul NaN y = NaN"
| "float_mul x NaN = NaN"

text \<open>Python's \<^verbatim>\<open>int(x)\<close> on a float: truncation toward zero.\<close>

fun float_to_int :: "pyfloat \<Rightarrow> py_error + int" where
  "float_to_int (Finite s m) = Inr (if s then - \<lfloor>m\<rfloor> else \<lfloor>m\<rfloor>)"
| "float_to_int (Infinity s) = Inl OverflowError"
| "float_to_int NaN = Inl ValueError"

subsection \<open>Formatting\<close>

fun str_nat :: "nat \<Rightarrow> string" where
  "str_nat n =
     (if n < 10 then [''0123456789'' ! n]
      else str_nat (n div 10) @ [''0123456789'' ! (n mod 10)])"

declare str_nat.simps [simp del]

text \<open>\<^verbatim>\<open>str\<close> of an \<^verbatim>\<open>int\<close>, as an f-string field prints it.\<close>

definition str_int :: "int \<Rightarrow> string" where
  "str_int i = (if i < 0 then CHR ''-'' # str_nat (nat (- i)) else str_nat (nat i))"

text \<open>\<^verbatim>\<open>repr\<close> of a pair of ints, as the field \<^verbatim>\<open>{img.size}\<close> prints it.\<close>

definition repr_size :: "int \<times> int \<Rightarrow> string" where
  "repr_size sz = ''('' @ str_int (fst sz) @ '', '' @ str_int (snd sz) @ '')''"

text \<open>
  The format specification \<^verbatim>\<open>:.1f\<close>: the exact value of the float, rounded to one
  decimal with ties to even.
\<close>

fun format_1f :: "pyfloat \<Rightarrow> string" where
  "format_1f (Finite s m) =
     (let n = nat (round_half_even (m * 10))
      in (if s then ''-'' else []) @ str_nat (n div 10) @ ''.'' @ str_nat (n mod 10))"
| "format_1f (Infinity s) = (if s then ''-inf'' else ''inf'')"
| "format_1f NaN = ''nan''"

subsection \<open>Images, the imaging library and the file system\<close>

type_synonym path = string
type_synonym bytes = "nat list"

text \<open>A decoded image: \<^verbatim>\<open>img.size\<close> is \<open>(width, height)\<close>.\<close>

record image =
  width :: int
  height :: int
  pixels :: "nat list"

text \<open>
  The imaging library is outside the repository.  The three operations the script
  calls are parameters: decoding the bytes of a file, resampling to a requested size
  with the Lanczos filter, and encoding as optimised PNG.  Each may raise.
\<close>

record pil =
  decode :: "bytes \<Rightarrow> py_error + image"
  resize_lanczos :: "image \<Rightarrow> int \<times> int \<Rightarrow> py_error + image"
  encode_png :: "image \<Rightarrow> py_error + bytes"

text \<open>
  What the script can observe and change: the files, by path, and standard output,
  by line.
\<close>

record world =
  files :: "path \<rightharpoonup> bytes"
  stdout :: "string list"

definition image_open :: "pil \<Rightarrow> world \<Rightarrow> path \<Rightarrow> py_error + image" where
  "image_open lib w p =
     (case files w p of None \<Rightarrow> Inl FileNotFoundError | Some b \<Rightarrow> decode lib b)"

text \<open>
  \<^verbatim>\<open>img.save(path, 'PNG', optimize=True)\<close>.  The library opens the file for writing
  before it encodes.  When the encoder raises, a file that was there before is left
  empty, and a file the save had created is removed again; the error comes with the
  world as the failed save leaves it.
\<close>

definition image_save ::
  "pil \<Rightarrow> image \<Rightarrow> path \<Rightarrow> world \<Rightarrow> (py_error \<times> world) + world" where
  "image_save lib img p w =
     (case encode_png lib img of
        Inl e \<Rightarrow>
          Inl (e, w\<lparr>files := (case files w p of
                                  None \<Rightarrow> files w
                                | Some old \<Rightarrow> (files w)(p \<mapsto> []))\<rparr>)
      | Inr b \<Rightarrow> Inr (w\<lparr>files := (files w)(p \<mapsto> b)\<rparr>))"

definition getsize :: "world \<Rightarrow> path \<Rightarrow> py_error + int" where
  "getsize w p =
     (case files w p of None \<Rightarrow> Inl FileNotFoundError | Some b \<Rightarrow> Inr (int (length b)))"

definition print :: "string \<Rightarrow> world \<Rightarrow> world" where
  "print line w = w\<lparr>stdout := stdout w @ [line]\<rparr>"

subsection \<open>The script\<close>

definition input_path :: path where
  "input_path = ''assets/images/app_image.png''"

definition output_path :: path where
  "output_path = ''assets/images/app_image_resized.png''"

definition target_width :: int where
  "target_width = 1920"

text \<open>
  Line 14: \<^verbatim>\<open>int((target_width * original_height) / original_width)\<close>.  The product is
  an exact integer, the division is float division, and \<^verbatim>\<open>int\<close> truncates the float.
\<close>

definition compute_target_height :: "int \<Rightarrow> int \<Rightarrow> int \<Rightarrow> py_error + int" where
  "compute_target_height tw original_height original_width =
     (case int_true_divide (tw * original_height) original_width of
        Inl e \<Rightarrow> Inl e
      | Inr x \<Rightarrow> float_to_int x)"

text \<open>
  Lines 24 to 30: the two file sizes and the three lines printed from them.  The last
  line divides by the original size, so on an empty source file it raises after the
  first two of the three are out.
\<close>

definition report_sizes :: "world \<Rightarrow> py_error option \<times> world" where
  "report_sizes w =
     (case getsize w input_path of
        Inl e \<Rightarrow> (Some e, w)
      | Inr original_size \<Rightarrow>
     (case getsize w output_path of
        Inl e \<Rightarrow> (Some e, w)
      | Inr new_size \<Rightarrow>
     (case int_true_divide original_size (1024 * 1024) of
        Inl e \<Rightarrow> (Some e, w)
      | Inr original_mb \<Rightarrow>
        let w1 = print (''Original file size: '' @ format_1f original_mb @ '' MB'') w in
     (case int_true_divide new_size (1024 * 1024) of
        Inl e \<Rightarrow> (Some e, w1)
      | Inr new_mb \<Rightarrow>
        let w2 = print (''New file size: '' @ format_1f new_mb @ '' MB'') w1 in
     (case int_true_divide (original_size - new_size) original_size of
        Inl e \<Rightarrow> (Some e, w2)
      | Inr ratio \<Rightarrow>
          (None, print (''Size reduction: ''
                        @ format_1f (float_mul ratio (Finite False 100)) @ ''%'') w2))))))"

text \<open>Lines 18 to 22 and what follows them: resize, save, report.\<close>

definition resize_and_save ::
  "pil \<Rightarrow> image \<Rightarrow> int \<times> int \<Rightarrow> world \<Rightarrow> py_error option \<times> world" where
  "resize_and_save lib img sz w =
     (case resize_lanczos lib img sz of
        Inl e \<Rightarrow> (Some e, w)
      | Inr resized_img \<Rightarrow>
     (case image_save lib resized_img output_path w of
        Inl (e, w') \<Rightarrow> (Some e, w')
      | Inr w' \<Rightarrow> report_sizes w'))"

text \<open>
  The whole script.  The result is the uncaught exception, if there is one, and the
  world as the run leaves it.
\<close>

definition resize_image :: "pil \<Rightarrow> world \<Rightarrow> py_error option \<times> world" where
  "resize_image lib w =
     (case image_open lib w input_path of
        Inl e \<Rightarrow> (Some e, w)
      | Inr img \<Rightarrow>
        let w1 = print (''Original size: '' @ repr_size (width img, height img)) w in
     (case compute_target_height target_width (height img) (width img) of
        Inl e \<Rightarrow> (Some e, w1)
      | Inr target_height \<Rightarrow>
        let w2 = print (''New size: '' @ str_int target_width @ ''x''
                        @ str_int target_height) w1
        in resize_and_save lib img (target_width, target_height) w2))"

subsection \<open>A small library and worlds to run the script on\<close>

text \<open>
  A stand-in for the imaging library, used where a property is tried on a concrete
  run.  A file is the width, the height and then the pixel data; a resize to a width
  or height below 1 is refused, as the real library refuses it.
\<close>

definition example_lib :: pil where
  "example_lib =
     \<lparr>decode = (\<lambda>b. case b of
                       w # h # rest \<Rightarrow> Inr \<lparr>width = int w, height = int h, pixels = rest\<rparr>
                     | _ \<Rightarrow> Inl UnidentifiedImageError),
      resize_lanczos = (\<lambda>img sz.
         if fst sz < 1 \<or> snd sz < 1 then Inl ValueError
         else Inr \<lparr>width = fst sz, height = snd sz, pixels = []\<rparr>),
      encode_png = (\<lambda>img.
         if width img < 0 \<or> height img < 0 then Inl ValueError
         else Inr (nat (width img) # nat (height img) # pixels img))\<rparr>"

text \<open>A world with the source file only, and one with a left-over output file only.\<close>

definition example_world :: "bytes \<Rightarrow> world" where
  "example_world b = \<lparr>files = [input_path \<mapsto> b], stdout = []\<rparr>"

definition stale_world :: world where
  "stale_world = \<lparr>files = [output_path \<mapsto> [7, 7]], stdout = []\<rparr>"

section \<open>Properties of the float arithmetic\<close>

lemma round_half_even_ge_floor: "\<lfloor>x\<rfloor> \<le> round_half_even x"
  by (simp add: round_half_even_def Let_def)

lemma round_half_even_lower: "of_int m \<le> x \<Longrightarrow> m \<le> round_half_even x"
proof -
  assume "of_int m \<le> x"
  then have "m \<le> \<lfloor>x\<rfloor>"
    by (simp add: le_floor_iff)
  then show ?thesis
    using round_half_even_ge_floor [of x] by linarith
qed

lemma round_half_even_upper:
  assumes "x < of_int m - 1 / 2"
  shows "round_half_even x < m"
proof -
  have fl: "\<lfloor>x\<rfloor> < m"
    using assms by (simp add: floor_less_iff)
  show ?thesis
  proof (cases "\<lfloor>x\<rfloor> = m - 1")
    case True
    then have "x - of_int \<lfloor>x\<rfloor> < 1 / 2"
      using assms by simp
    then show ?thesis
      using True by (simp add: round_half_even_def Let_def)
  next
    case False
    then have "\<lfloor>x\<rfloor> + 1 < m"
      using fl by simp
    moreover have "round_half_even x \<le> \<lfloor>x\<rfloor> + 1"
      by (simp add: round_half_even_def Let_def)
    ultimately show ?thesis by simp
  qed
qed

lemma round_half_even_error: "\<bar>of_int (round_half_even x) - x\<bar> \<le> 1 / 2"
proof -
  have "of_int \<lfloor>x\<rfloor> \<le> x" "x < of_int \<lfloor>x\<rfloor> + 1"
    by linarith+
  then show ?thesis
    by (auto simp add: round_half_even_def Let_def abs_le_iff)
qed

lemma round_half_even_of_int [simp]: "round_half_even (of_int n) = n"
  by (simp add: round_half_even_def)

lemma bitlen_powi_bounds:
  assumes "0 < p"
  shows "(2::rat) powi (bitlen p - 1) \<le> of_int p" and "of_int p < (2::rat) powi bitlen p"
proof -
  have b: "1 \<le> bitlen p"
    using assms by (simp add: bitlen_alt_def)
  have "(2::int) ^ nat (bitlen p - 1) \<le> p" "p < 2 ^ nat (bitlen p)"
    using bitlen_bounds [OF assms] by simp_all
  then have "(of_int (2 ^ nat (bitlen p - 1)) :: rat) \<le> of_int p"
    and "(of_int p :: rat) < of_int (2 ^ nat (bitlen p))"
    by (simp_all only: of_int_le_iff of_int_less_iff)
  then show "(2::rat) powi (bitlen p - 1) \<le> of_int p" and "of_int p < (2::rat) powi bitlen p"
    using b by (simp_all add: power_int_def)
qed

lemma floor_log2_test:
  assumes "0 < p" "0 < q"
  shows "(if 0 \<le> k then q * 2 ^ nat k \<le> p else q \<le> p * 2 ^ nat (- k))
         \<longleftrightarrow> (2::rat) powi k * of_int q \<le> of_int p"
proof (cases "0 \<le> k")
  case True
  have "(q * 2 ^ nat k \<le> p) = ((of_int (q * 2 ^ nat k) :: rat) \<le> of_int p)"
    by (simp only: of_int_le_iff)
  then show ?thesis
    using True by (simp add: power_int_def mult.commute)
next
  case False
  have "(q \<le> p * 2 ^ nat (- k)) = ((of_int q :: rat) \<le> of_int (p * 2 ^ nat (- k)))"
    by (simp only: of_int_le_iff)
  then show ?thesis
    using False by (simp add: power_int_def field_simps)
qed

lemma floor_log2_bounds:
  assumes "0 < x"
  shows "2 powi floor_log2 x \<le> x" and "x < 2 powi (floor_log2 x + 1)"
proof -
  obtain p q where pq: "quotient_of x = (p, q)"
    by (cases "quotient_of x")
  have q: "0 < q"
    using pq quotient_of_denom_pos by blast
  have x: "x = of_int p / of_int q"
    using pq quotient_of_div by blast
  have p: "0 < p"
    using assms q x by (simp add: zero_less_divide_iff)
  define k where "k = bitlen p - bitlen q"
  have fl: "floor_log2 x = (if (2::rat) powi k * of_int q \<le> of_int p then k else k - 1)"
    using floor_log2_test [OF p q, of "bitlen p - bitlen q"]
    unfolding k_def floor_log2_def pq Let_def by simp
  have qpos: "(0::rat) < of_int q"
    using q by simp
  have up: "of_int p < (2::rat) powi (k + 1) * of_int q"
  proof -
    have "of_int p < (2::rat) powi bitlen p"
      using bitlen_powi_bounds(2) [OF p] .
    also have "\<dots> = 2 powi (k + 1) * 2 powi (bitlen q - 1)"
      by (simp add: k_def flip: power_int_add)
    also have "\<dots> \<le> 2 powi (k + 1) * of_int q"
      using bitlen_powi_bounds(1) [OF q] by (simp add: mult_left_mono)
    finally show ?thesis .
  qed
  have lo: "(2::rat) powi (k - 1) * of_int q \<le> of_int p"
  proof -
    have "(2::rat) powi (k - 1) * of_int q \<le> 2 powi (k - 1) * 2 powi bitlen q"
      using bitlen_powi_bounds(2) [OF q] by (simp add: mult_left_mono)
    also have "\<dots> = 2 powi (bitlen p - 1)"
      by (simp add: k_def flip: power_int_add)
    also have "\<dots> \<le> of_int p"
      using bitlen_powi_bounds(1) [OF p] .
    finally show ?thesis .
  qed
  have "(2::rat) powi floor_log2 x * of_int q \<le> of_int p"
    using lo by (simp add: fl)
  then show "2 powi floor_log2 x \<le> x"
    unfolding x using qpos by (simp add: pos_le_divide_eq)
  have "of_int p < (2::rat) powi (floor_log2 x + 1) * of_int q"
    using up by (simp add: fl not_le)
  then show "x < 2 powi (floor_log2 x + 1)"
    unfolding x using qpos by (simp add: pos_divide_less_eq)
qed

lemma quantum_pos: "0 < quantum x"
  by (simp add: quantum_def)

lemma floor_round_binary64_div:
  assumes a: "0 \<le> a" "a < 2 ^ 53" and b: "0 < b"
  shows "\<lfloor>round_binary64 (of_int a / of_int b)\<rfloor> = a div b"
proof (cases "a = 0")
  case True
  then show ?thesis by (simp add: round_binary64_def)
next
  case False
  define x :: rat where "x = of_int a / of_int b"
  define n where "n = a div b"
  have bpos: "(0::rat) < of_int b"
    using b by simp
  have apos: "0 < a"
    using a False by simp
  have xpos: "0 < x"
    using apos bpos by (simp add: x_def)
  have "a = n * b + a mod b"
    by (simp add: n_def)
  then have "n * b \<le> a" "a \<le> n * b + b - 1"
    using pos_mod_sign [OF b, of a] pos_mod_bound [OF b, of a] by linarith+
  then have "(of_int (n * b) :: rat) \<le> of_int a" "(of_int a :: rat) \<le> of_int (n * b + b - 1)"
    by (simp_all only: of_int_le_iff)
  then have n_le: "of_int n \<le> x" and x_le: "x \<le> of_int n + 1 - 1 / of_int b"
    using bpos by (simp_all add: x_def field_simps)
  have npos: "0 \<le> n"
    using a b by (simp add: n_def pos_imp_zdiv_nonneg_iff)
  define e where "e = floor_log2 x"
  define E where "E = max e (- 1022)"
  define u :: rat where "u = 2 powi (E - 52)"
  define R where "R = round_half_even (x / u)"
  have upos: "0 < u"
    by (simp add: u_def)
  have r: "round_binary64 x = u * of_int R"
    using xpos by (simp add: round_binary64_def quantum_def u_def E_def e_def R_def)
  have e_lo: "2 powi e \<le> x" and e_hi: "x < 2 powi (e + 1)"
    using floor_log2_bounds [OF xpos] by (simp_all add: e_def)
  have "(of_int a :: rat) < of_int (2 ^ 53)"
    using a by (simp only: of_int_less_iff)
  then have a53: "(of_int a :: rat) < 2 ^ 53"
    by simp
  have "x \<le> of_int a"
    using b apos bpos by (simp add: x_def field_simps mult_le_cancel_left1)
  then have "x < 2 ^ 53"
    using a53 by (rule le_less_trans)
  then have "(2::rat) powi e < 2 powi 53"
    using e_lo by simp
  then have "e < 53"
    by (rule power_int_le_imp_less_exp [rotated]) simp_all
  then have e52: "e \<le> 52"
    by simp
  then have E52: "E \<le> 52"
    by (simp add: E_def)
  define s where "s = nat (52 - E)"
  have us: "u * 2 ^ s = 1"
  proof -
    have "(2::rat) ^ s = 2 powi (52 - E)"
      using E52 by (simp add: s_def power_int_def)
    then have "u * 2 ^ s = 2 powi (E - 52) * 2 powi (52 - E)"
      by (simp add: u_def)
    also have "\<dots> = 2 powi (E - 52 + (52 - E))"
      by (rule power_int_add [symmetric]) simp
    finally show ?thesis by simp
  qed
  have scale: "u * of_int (k * 2 ^ s) = of_int k" for k
  proof -
    have "u * of_int (k * 2 ^ s) = of_int k * (u * 2 ^ s)"
      by (simp add: mult_ac)
    then show ?thesis
      by (simp only: us mult_1_right)
  qed
  have xu: "x / u = x * 2 ^ s"
  proof -
    have "x / u = x * (u * 2 ^ s) / u"
      by (simp only: us mult_1_right)
    then show ?thesis
      using upos by simp
  qed
  have lower: "of_int n \<le> u * of_int R"
  proof -
    have "of_int (n * 2 ^ s) \<le> x / u"
      using n_le by (simp add: xu)
    then have "n * 2 ^ s \<le> R"
      unfolding R_def by (rule round_half_even_lower)
    then have "(of_int (n * 2 ^ s) :: rat) \<le> of_int R"
      by (simp only: of_int_le_iff)
    then have "u * of_int (n * 2 ^ s) \<le> u * of_int R"
      using upos by (simp add: mult_left_mono)
    then show ?thesis
      by (simp only: scale)
  qed
  have upper: "u * of_int R < of_int n + 1"
  proof (cases "E = e")
    case True
    have "2 powi e * of_int b \<le> (of_int a :: rat)"
      using e_lo bpos by (simp add: x_def pos_le_divide_eq)
    then have "2 powi e * of_int b < (2::rat) ^ 53"
      using a53 by simp
    moreover have "2 powi e = u * 2 ^ 52"
      unfolding u_def True by (simp add: power_int_diff)
    ultimately have "(u * of_int b) * 2 ^ 52 < 2 ^ 53"
      by (simp only: mult_ac)
    then have ub: "u * of_int b < 2"
      by simp
    then have "u / 2 < 1 / of_int b"
      using bpos by (simp add: field_simps)
    then have "x < of_int n + 1 - u / 2"
      using x_le by simp
    then have "x * 2 ^ s < (of_int n + 1 - u / 2) * 2 ^ s"
      by (rule mult_strict_right_mono) simp
    also have "\<dots> = (of_int n + 1) * 2 ^ s - (u * 2 ^ s) / 2"
      by (simp add: algebra_simps)
    also have "\<dots> = of_int ((n + 1) * 2 ^ s) - 1 / 2"
      by (simp add: us)
    finally have "R < (n + 1) * 2 ^ s"
      unfolding R_def xu by (rule round_half_even_upper)
    then have "R \<le> (n + 1) * 2 ^ s - 1"
      by simp
    then have "(of_int R :: rat) \<le> of_int ((n + 1) * 2 ^ s - 1)"
      by (simp only: of_int_le_iff)
    then have "u * of_int R \<le> u * of_int ((n + 1) * 2 ^ s - 1)"
      using upos by (simp add: mult_left_mono)
    also have "\<dots> = u * of_int ((n + 1) * 2 ^ s) - u"
      by (simp add: algebra_simps)
    also have "\<dots> = of_int n + 1 - u"
      by (simp only: scale of_int_add of_int_1)
    finally show ?thesis
      using upos by simp
  next
    case False
    then have e: "e + 1 \<le> - 1022" and E: "E = - 1022"
      by (simp_all add: E_def max_def split: if_splits)
    have "(2::rat) powi (e + 1) \<le> 2 powi (- 2)"
      using e by (intro power_int_increasing) simp_all
    also have "\<dots> = 1 / 4"
      by (simp add: power_int_minus)
    finally have x4: "x < 1 / 4"
      using e_hi by simp
    have "u \<le> 2 powi (- 1)"
      unfolding u_def E by (intro power_int_increasing) simp_all
    then have u2: "u \<le> 1 / 2"
      by (simp add: power_int_minus)
    have "\<bar>of_int R - x / u\<bar> \<le> 1 / 2"
      unfolding R_def by (rule round_half_even_error)
    then have "of_int R \<le> x / u + 1 / 2"
      by linarith
    then have "u * of_int R \<le> u * (x / u + 1 / 2)"
      using upos by (simp add: mult_left_mono)
    also have "\<dots> = x + u / 2"
      using upos by (simp add: algebra_simps)
    finally show ?thesis
      using x4 u2 npos by simp
  qed
  have "\<lfloor>u * of_int R\<rfloor> = n"
    using lower upper by (simp add: floor_unique)
  then show ?thesis
    by (simp add: r n_def flip: x_def)
qed

lemma quantum_inverse_power:
  assumes "0 < x" "x < 2 ^ 53"
  shows "\<exists>s. quantum x * 2 ^ s = 1"
proof -
  define e where "e = floor_log2 x"
  define E where "E = max e (- 1022)"
  have "2 powi e \<le> x"
    using floor_log2_bounds(1) [OF assms(1)] by (simp add: e_def)
  then have "(2::rat) powi e < 2 powi 53"
    using assms(2) by simp
  then have "e < 53"
    by (rule power_int_le_imp_less_exp [rotated]) simp_all
  then have E52: "E \<le> 52"
    by (simp add: E_def)
  have "(2::rat) ^ nat (52 - E) = 2 powi (52 - E)"
    using E52 by (simp add: power_int_def)
  then have "quantum x * 2 ^ nat (52 - E) = 2 powi (E - 52) * 2 powi (52 - E)"
    by (simp add: quantum_def E_def e_def)
  also have "\<dots> = 2 powi (E - 52 + (52 - E))"
    by (rule power_int_add [symmetric]) simp
  finally have "quantum x * 2 ^ nat (52 - E) = 1"
    by simp
  then show ?thesis ..
qed

lemma round_binary64_2_53: "round_binary64 9007199254740992 = 9007199254740992"
  by code_simp

lemma round_binary64_of_int:
  assumes "0 \<le> n" "n \<le> 2 ^ 53"
  shows "round_binary64 (of_int n) = of_int n"
proof (cases "n = 0 \<or> n = 2 ^ 53")
  case True
  then show ?thesis
    using round_binary64_2_53 by (auto simp add: round_binary64_def)
next
  case False
  then have n: "0 < n" "n < 2 ^ 53"
    using assms by simp_all
  define x :: rat where "x = of_int n"
  have "(of_int n :: rat) < of_int (2 ^ 53)"
    using n by (simp only: of_int_less_iff)
  then have x: "0 < x" "x < 2 ^ 53"
    using n by (simp_all add: x_def)
  then obtain s where s: "quantum x * 2 ^ s = 1"
    using quantum_inverse_power by blast
  have "x / quantum x = x * (quantum x * 2 ^ s) / quantum x"
    by (simp only: s mult_1_right)
  also have "\<dots> = of_int (n * 2 ^ s)"
    using quantum_pos [of x] by (simp add: x_def)
  finally have "round_half_even (x / quantum x) = n * 2 ^ s"
    by (simp only: round_half_even_of_int)
  then have "round_binary64 x = quantum x * of_int (n * 2 ^ s)"
    using x by (simp add: round_binary64_def)
  also have "\<dots> = of_int n * (quantum x * 2 ^ s)"
    by (simp add: mult_ac)
  finally have "round_binary64 x = of_int n"
    by (simp only: s mult_1_right)
  then show ?thesis
    by (simp only: x_def)
qed

lemma int_true_divide_floor:
  assumes "0 \<le> a" "a < 2 ^ 53" "0 < b"
  shows "\<exists>r. int_true_divide a b = Inr (Finite False r) \<and> \<lfloor>r\<rfloor> = a div b"
proof -
  define r where "r = round_binary64 (of_int a / of_int b)"
  have fl: "\<lfloor>r\<rfloor> = a div b"
    unfolding r_def using assms by (rule floor_round_binary64_div)
  have "a div b \<le> a"
    using zdiv_mono2 [of a 1 b] assms by simp
  then have "\<lfloor>r\<rfloor> < 2 ^ 53"
    using assms fl by simp
  then have "r < 2 ^ 53"
    by (simp add: floor_less_iff)
  also have "\<dots> < (2::rat) ^ 1024"
    by (rule power_strict_increasing) simp_all
  finally have small: "\<not> of_int overflow_threshold \<le> r"
    by (simp add: overflow_threshold_def)
  have "0 \<le> (of_int a :: rat) / of_int b"
    using assms by simp
  then have "\<bar>(of_int a :: rat) / of_int b\<bar> = of_int a / of_int b"
    by (rule abs_of_nonneg)
  then have "int_true_divide a b = Inr (Finite False r)"
    using assms small by (simp add: int_true_divide_def r_def Let_def not_less)
  then show ?thesis
    using fl by blast
qed

lemma compute_target_height_floor:
  assumes "0 \<le> tw * oh" "tw * oh < 2 ^ 53" "0 < ow"
  shows "compute_target_height tw oh ow = Inr (tw * oh div ow)"
proof -
  obtain r where "int_true_divide (tw * oh) ow = Inr (Finite False r)"
    and "\<lfloor>r\<rfloor> = tw * oh div ow"
    using int_true_divide_floor [OF assms] by blast
  then show ?thesis
    by (simp add: compute_target_height_def)
qed

text \<open>
  The bound on the product is what makes the float division exact enough.  A product
  of 54 bits or more need not be a binary64 value: the division then returns its
  nearest neighbour, here 128 above the exact quotient.
\<close>

lemma compute_target_height_large_product:
  "compute_target_height 1920 9007199254740993 1 = Inr 17293822569102706688"
  by code_simp

lemma compute_target_height_exact:
  assumes "0 < tw" "0 \<le> oh" "oh \<le> 2 ^ 53"
  shows "compute_target_height tw oh tw = Inr oh"
proof -
  have q: "\<bar>(of_int (tw * oh) :: rat) / of_int tw\<bar> = of_int oh"
    using assms by simp
  have r: "round_binary64 (of_int oh) = of_int oh"
    using assms by (intro round_binary64_of_int)
  have "oh < overflow_threshold"
  proof -
    have "(2::int) ^ 53 < 2 ^ 1024"
      by (rule power_strict_increasing) simp_all
    then show ?thesis
      using assms by (simp add: overflow_threshold_def)
  qed
  then have "\<not> (of_int overflow_threshold :: rat) \<le> of_int oh"
    by (simp only: of_int_le_iff not_le)
  then have "int_true_divide (tw * oh) tw = Inr (Finite False (of_int oh))"
    using assms unfolding int_true_divide_def q r Let_def
    by (simp add: not_less mult_nonneg_nonneg)
  then show ?thesis
    by (simp add: compute_target_height_def)
qed

lemma compute_target_height_zero_width:
  "compute_target_height tw oh 0 = Inl ZeroDivisionError"
  by (simp add: compute_target_height_def int_true_divide_def)

lemma compute_target_height_nonzero_width:
  assumes "ow \<noteq> 0"
  shows "compute_target_height tw oh ow \<noteq> Inl ZeroDivisionError"
proof (cases "int_true_divide (tw * oh) ow")
  case (Inl e)
  then have "e = OverflowError"
    using assms by (auto simp add: int_true_divide_def Let_def split: if_splits)
  then show ?thesis
    using Inl by (simp add: compute_target_height_def)
next
  case (Inr x)
  then obtain s m where "x = Finite s m"
    using assms by (auto simp add: int_true_divide_def Let_def split: if_splits)
  then show ?thesis
    using Inr by (simp add: compute_target_height_def)
qed

section \<open>Properties of the script\<close>

lemma input_output_distinct: "input_path \<noteq> output_path"
  by (simp add: input_path_def output_path_def)

lemma files_print [simp]: "files (print line w) = files w"
  by (simp add: print_def)

lemma stdout_print [simp]: "stdout (print line w) = stdout w @ [line]"
  by (simp add: print_def)

lemma report_sizes_files: "files (snd (report_sizes w)) = files w"
  by (simp add: report_sizes_def Let_def split: sum.splits)

lemma report_sizes_result_files:
  assumes "report_sizes w = (r, w')"
  shows "files w' = files w"
  using report_sizes_files [of w] assms by simp

lemma resize_and_save_frame:
  assumes "p \<noteq> output_path"
  shows "files (snd (resize_and_save lib img sz w)) p = files w p"
  using assms
  by (simp add: resize_and_save_def image_save_def report_sizes_files
      split: sum.splits option.splits)

lemma resize_image_frame:
  assumes "p \<noteq> output_path"
  shows "files (snd (resize_image lib w)) p = files w p"
  using assms
  by (simp add: resize_image_def Let_def resize_and_save_frame split: sum.splits)

lemma resize_image_steps:
  assumes "image_open lib w input_path = Inr img"
    and "compute_target_height target_width (height img) (width img) = Inr th"
  shows "resize_image lib w
         = resize_and_save lib img (target_width, th)
             (print (''New size: '' @ str_int target_width @ ''x'' @ str_int th)
                (print (''Original size: '' @ repr_size (width img, height img)) w))"
  using assms by (simp add: resize_image_def)

lemma resize_and_save_steps:
  assumes "resize_lanczos lib img sz = Inr resized_img"
    and "encode_png lib resized_img = Inr b"
  shows "resize_and_save lib img sz w
         = report_sizes (w\<lparr>files := (files w)(output_path \<mapsto> b)\<rparr>)"
  using assms by (simp add: resize_and_save_def image_save_def)

lemma report_sizes_steps:
  assumes "getsize w input_path = Inr original_size"
    and "getsize w output_path = Inr new_size"
    and "int_true_divide original_size (1024 * 1024) = Inr original_mb"
    and "int_true_divide new_size (1024 * 1024) = Inr new_mb"
    and "int_true_divide (original_size - new_size) original_size = Inr ratio"
  shows "report_sizes w
         = (None,
            print (''Size reduction: '' @ format_1f (float_mul ratio (Finite False 100)) @ ''%'')
              (print (''New file size: '' @ format_1f new_mb @ '' MB'')
                 (print (''Original file size: '' @ format_1f original_mb @ '' MB'') w)))"
  using assms by (simp add: report_sizes_def)

lemma report_sizes_success:
  assumes "report_sizes w = (None, w')"
  shows "\<exists>original_size new_size original_mb new_mb ratio.
           getsize w input_path = Inr original_size
         \<and> getsize w output_path = Inr new_size
         \<and> int_true_divide original_size (1024 * 1024) = Inr original_mb
         \<and> int_true_divide new_size (1024 * 1024) = Inr new_mb
         \<and> int_true_divide (original_size - new_size) original_size = Inr ratio"
  using assms by (simp add: report_sizes_def Let_def split: sum.splits)

lemma resize_and_save_success:
  assumes "resize_and_save lib img sz w = (None, w')"
  shows "\<exists>resized_img b. resize_lanczos lib img sz = Inr resized_img
           \<and> encode_png lib resized_img = Inr b"
  using assms by (auto simp add: resize_and_save_def image_save_def split: sum.splits)

lemma resize_image_success:
  assumes "resize_image lib w = (None, w')"
  shows "\<exists>img th. image_open lib w input_path = Inr img
           \<and> compute_target_height target_width (height img) (width img) = Inr th"
  using assms by (simp add: resize_image_def Let_def split: sum.splits)

lemma successful_run:
  assumes "resize_image lib w = (None, w')"
  obtains img th resized_img b where
    "image_open lib w input_path = Inr img"
    "compute_target_height target_width (height img) (width img) = Inr th"
    "resize_lanczos lib img (target_width, th) = Inr resized_img"
    "encode_png lib resized_img = Inr b"
    "report_sizes
       ((print (''New size: '' @ str_int target_width @ ''x'' @ str_int th)
           (print (''Original size: '' @ repr_size (width img, height img)) w))
        \<lparr>files := (files w)(output_path \<mapsto> b)\<rparr>) = (None, w')"
proof -
  obtain img th where o: "image_open lib w input_path = Inr img"
    and c: "compute_target_height target_width (height img) (width img) = Inr th"
    using resize_image_success [OF assms] by blast
  let ?w2 = "print (''New size: '' @ str_int target_width @ ''x'' @ str_int th)
               (print (''Original size: '' @ repr_size (width img, height img)) w)"
  have r: "resize_and_save lib img (target_width, th) ?w2 = (None, w')"
    using assms by (simp only: resize_image_steps [OF o c])
  then obtain resized_img b where rs: "resize_lanczos lib img (target_width, th) = Inr resized_img"
    and en: "encode_png lib resized_img = Inr b"
    using resize_and_save_success by blast
  have "report_sizes (?w2\<lparr>files := (files ?w2)(output_path \<mapsto> b)\<rparr>) = (None, w')"
    using r by (simp only: resize_and_save_steps [OF rs en])
  then have "report_sizes (?w2\<lparr>files := (files w)(output_path \<mapsto> b)\<rparr>) = (None, w')"
    by simp
  with o c rs en show ?thesis
    by (rule that)
qed

lemma report_sizes_outcome:
  assumes "files w1 input_path = files w2 input_path"
    and "files w1 output_path = files w2 output_path"
  shows "fst (report_sizes w1) = fst (report_sizes w2)"
  using assms
  by (simp add: report_sizes_def getsize_def Let_def split: sum.splits option.splits)

lemma resize_and_save_outcome:
  assumes "files w1 input_path = files w2 input_path"
  shows "fst (resize_and_save lib img sz w1) = fst (resize_and_save lib img sz w2)
         \<and> (fst (resize_and_save lib img sz w1) = None \<longrightarrow>
              files (snd (resize_and_save lib img sz w1)) output_path
              = files (snd (resize_and_save lib img sz w2)) output_path)"
proof (cases "resize_lanczos lib img sz")
  case (Inl e)
  then show ?thesis by (simp add: resize_and_save_def)
next
  case (Inr resized_img)
  show ?thesis
  proof (cases "encode_png lib resized_img")
    case (Inl e)
    then show ?thesis using Inr by (simp add: resize_and_save_def image_save_def)
  next
    case enc: (Inr b)
    let ?v1 = "w1\<lparr>files := (files w1)(output_path \<mapsto> b)\<rparr>"
    let ?v2 = "w2\<lparr>files := (files w2)(output_path \<mapsto> b)\<rparr>"
    have r1: "resize_and_save lib img sz w1 = report_sizes ?v1"
      and r2: "resize_and_save lib img sz w2 = report_sizes ?v2"
      using Inr enc by (simp_all add: resize_and_save_def image_save_def)
    have "fst (report_sizes ?v1) = fst (report_sizes ?v2)"
      using assms input_output_distinct by (intro report_sizes_outcome) simp_all
    then show ?thesis
      by (simp add: r1 r2 report_sizes_files)
  qed
qed

lemma resize_image_outcome:
  assumes "files w1 input_path = files w2 input_path"
  shows "fst (resize_image lib w1) = fst (resize_image lib w2)
         \<and> (fst (resize_image lib w1) = None \<longrightarrow>
              files (snd (resize_image lib w1)) output_path
              = files (snd (resize_image lib w2)) output_path)"
proof (cases "image_open lib w1 input_path")
  case (Inl e)
  then have "image_open lib w2 input_path = Inl e"
    using assms by (simp add: image_open_def)
  then show ?thesis
    using Inl by (simp add: resize_image_def)
next
  case (Inr img)
  then have o2: "image_open lib w2 input_path = Inr img"
    using assms by (simp add: image_open_def)
  show ?thesis
  proof (cases "compute_target_height target_width (height img) (width img)")
    case (Inl e)
    then show ?thesis
      using Inr o2 by (simp add: resize_image_def)
  next
    case th: (Inr target_height)
    show ?thesis
      unfolding resize_image_steps [OF Inr th] resize_image_steps [OF o2 th]
      using assms by (intro resize_and_save_outcome) simp
  qed
qed

lemma example_lib_resize_contract:
  "\<forall>img sz r. resize_lanczos example_lib img sz = Inr r \<longrightarrow> width r = fst sz \<and> height r = snd sz"
  by (auto simp add: example_lib_def split: if_splits)

lemma example_lib_codec_contract:
  "\<forall>img b. encode_png example_lib img = Inr b \<longrightarrow>
     (\<exists>img'. decode example_lib b = Inr img' \<and> width img' = width img \<and> height img' = height img)"
  by (auto simp add: example_lib_def split: if_splits)

lemma example_run:
  "resize_image example_lib (example_world [4000, 3000, 0, 0, 0, 0, 0, 0])
   = (None,
      \<lparr>files = [input_path \<mapsto> [4000, 3000, 0, 0, 0, 0, 0, 0], output_path \<mapsto> [1920, 1440]],
       stdout = [''Original size: (4000, 3000)'', ''New size: 1920x1440'',
                 ''Original file size: 0.0 MB'', ''New file size: 0.0 MB'',
                 ''Size reduction: 75.0%'']\<rparr>)"
proof -
  let ?b = "[4000, 3000, 0, 0, 0, 0, 0, 0] :: bytes"
  let ?img = "\<lparr>width = 4000, height = 3000, pixels = [0, 0, 0, 0, 0, 0]\<rparr>"
  have op: "image_open example_lib (example_world ?b) input_path = Inr ?img"
    by (simp add: image_open_def example_lib_def example_world_def)
  have th: "compute_target_height target_width (height ?img) (width ?img) = Inr 1440"
    using compute_target_height_floor [of target_width 3000 4000]
    by (simp add: target_width_def)
  have rs: "resize_lanczos example_lib ?img (target_width, 1440)
            = Inr \<lparr>width = 1920, height = 1440, pixels = []\<rparr>"
    by (simp add: example_lib_def target_width_def)
  have en: "encode_png example_lib \<lparr>width = 1920, height = 1440, pixels = []\<rparr>
            = Inr [1920, 1440]"
    by (simp add: example_lib_def)
  let ?w = "\<lparr>files = [input_path \<mapsto> ?b, output_path \<mapsto> [1920, 1440]],
             stdout = [''Original size: (4000, 3000)'', ''New size: 1920x1440'']\<rparr>"
  have s1: "repr_size (4000, 3000) = ''(4000, 3000)''"
    by code_simp
  have s2: "str_int target_width = ''1920''" "str_int 1440 = ''1440''"
    by code_simp+
  have g1: "getsize ?w input_path = Inr 8" and g2: "getsize ?w output_path = Inr 2"
    using input_output_distinct by (simp_all add: getsize_def)
  have d1: "int_true_divide 8 (1024 * 1024) = Inr (Finite False (1 / 131072))"
    and d2: "int_true_divide 2 (1024 * 1024) = Inr (Finite False (1 / 524288))"
    and d3: "int_true_divide (8 - 2) 8 = Inr (Finite False (3 / 4))"
    by code_simp+
  have f1: "format_1f (Finite False (1 / 131072)) = ''0.0''"
    and f2: "format_1f (Finite False (1 / 524288)) = ''0.0''"
    and f3: "format_1f (float_mul (Finite False (3 / 4)) (Finite False 100)) = ''75.0''"
    by code_simp+
  have "report_sizes ?w
        = (None, print (''Size reduction: '' @ ''75.0'' @ ''%'')
              (print (''New file size: '' @ ''0.0'' @ '' MB'')
                 (print (''Original file size: '' @ ''0.0'' @ '' MB'') ?w)))"
    using report_sizes_steps [OF g1 g2 d1 d2 d3] by (simp only: f1 f2 f3)
  then have rp: "report_sizes ?w
        = (None, \<lparr>files = [input_path \<mapsto> ?b, output_path \<mapsto> [1920, 1440]],
       stdout = [''Original size: (4000, 3000)'', ''New size: 1920x1440'',
                 ''Original file size: 0.0 MB'', ''New file size: 0.0 MB'',
                 ''Size reduction: 75.0%'']\<rparr>)"
    by (simp add: print_def)
  show ?thesis
    unfolding resize_image_steps [OF op th] resize_and_save_steps [OF rs en]
    using rp by (simp add: print_def example_world_def s1 s2)
qed

lemma decoded_output_size:
  assumes resize_contract:
      "\<forall>img sz r. resize_lanczos lib img sz = Inr r \<longrightarrow> width r = fst sz \<and> height r = snd sz"
    and codec_contract:
      "\<forall>img b. encode_png lib img = Inr b \<longrightarrow>
         (\<exists>img'. decode lib b = Inr img' \<and> width img' = width img \<and> height img' = height img)"
    and run: "resize_image lib w = (None, w')"
  shows "\<exists>img th out.
           image_open lib w input_path = Inr img
         \<and> compute_target_height target_width (height img) (width img) = Inr th
         \<and> image_open lib w' output_path = Inr out
         \<and> width out = target_width \<and> height out = th"
proof -
  from run obtain img th resized_img b where
    o: "image_open lib w input_path = Inr img"
    and c: "compute_target_height target_width (height img) (width img) = Inr th"
    and rs: "resize_lanczos lib img (target_width, th) = Inr resized_img"
    and en: "encode_png lib resized_img = Inr b"
    and rp: "report_sizes
       ((print (''New size: '' @ str_int target_width @ ''x'' @ str_int th)
           (print (''Original size: '' @ repr_size (width img, height img)) w))
        \<lparr>files := (files w)(output_path \<mapsto> b)\<rparr>) = (None, w')"
    by (rule successful_run)
  have "files w' = (files w)(output_path \<mapsto> b)"
    using report_sizes_result_files [OF rp] by simp
  then have f: "files w' output_path = Some b"
    by simp
  have sz: "width resized_img = target_width" "height resized_img = th"
    using resize_contract rs by fastforce+
  obtain out where "decode lib b = Inr out" "width out = width resized_img"
    "height out = height resized_img"
    using codec_contract en by blast
  then have "image_open lib w' output_path = Inr out \<and> width out = target_width \<and> height out = th"
    using f sz by (simp add: image_open_def)
  then show ?thesis
    using o c by blast
qed

lemma example_run_same_width:
  "resize_image example_lib (example_world [1920, 1080])
   = (None,
      \<lparr>files = [input_path \<mapsto> [1920, 1080], output_path \<mapsto> [1920, 1080]],
       stdout = [''Original size: (1920, 1080)'', ''New size: 1920x1080'',
                 ''Original file size: 0.0 MB'', ''New file size: 0.0 MB'',
                 ''Size reduction: 0.0%'']\<rparr>)"
proof -
  let ?b = "[1920, 1080] :: bytes"
  let ?img = "\<lparr>width = 1920, height = 1080, pixels = []\<rparr>"
  have op: "image_open example_lib (example_world ?b) input_path = Inr ?img"
    by (simp add: image_open_def example_lib_def example_world_def)
  have th: "compute_target_height target_width (height ?img) (width ?img) = Inr 1080"
    using compute_target_height_floor [of target_width 1080 1920]
    by (simp add: target_width_def)
  have rs: "resize_lanczos example_lib ?img (target_width, 1080) = Inr ?img"
    by (simp add: example_lib_def target_width_def)
  have en: "encode_png example_lib ?img = Inr [1920, 1080]"
    by (simp add: example_lib_def)
  let ?w = "\<lparr>files = [input_path \<mapsto> ?b, output_path \<mapsto> [1920, 1080]],
             stdout = [''Original size: (1920, 1080)'', ''New size: 1920x1080'']\<rparr>"
  have s1: "repr_size (1920, 1080) = ''(1920, 1080)''"
    by code_simp
  have s2: "str_int target_width = ''1920''" "str_int 1080 = ''1080''"
    by code_simp+
  have g1: "getsize ?w input_path = Inr 2" and g2: "getsize ?w output_path = Inr 2"
    using input_output_distinct by (simp_all add: getsize_def)
  have d1: "int_true_divide 2 (1024 * 1024) = Inr (Finite False (1 / 524288))"
    and d3: "int_true_divide (2 - 2) 2 = Inr (Finite False 0)"
    by code_simp+
  have f1: "format_1f (Finite False (1 / 524288)) = ''0.0''"
    and f3: "format_1f (float_mul (Finite False 0) (Finite False 100)) = ''0.0''"
    by code_simp+
  have "report_sizes ?w
        = (None, print (''Size reduction: '' @ ''0.0'' @ ''%'')
              (print (''New file size: '' @ ''0.0'' @ '' MB'')
                 (print (''Original file size: '' @ ''0.0'' @ '' MB'') ?w)))"
    using report_sizes_steps [OF g1 g2 d1 d1 d3] by (simp only: f1 f3)
  then have rp: "report_sizes ?w
        = (None, \<lparr>files = [input_path \<mapsto> ?b, output_path \<mapsto> [1920, 1080]],
       stdout = [''Original size: (1920, 1080)'', ''New size: 1920x1080'',
                 ''Original file size: 0.0 MB'', ''New file size: 0.0 MB'',
                 ''Size reduction: 0.0%'']\<rparr>)"
    by (simp add: print_def)
  show ?thesis
    unfolding resize_image_steps [OF op th] resize_and_save_steps [OF rs en]
    using rp by (simp add: print_def example_world_def s1 s2)
qed

section \<open>Claims\<close>

subsection \<open>The target height\<close>

text \<open>
  C1.  For an input image with \<open>original_width > 0\<close> and \<open>original_height \<ge> 0\<close> and the
  script's target width 1920, the computed target height is the integer quotient
  \<open>target_width * original_height div original_width\<close>: the floor of the exact
  quotient, with no rounding.

  The script divides in floating point and truncates the float.  The two agree as
  long as the product \<open>target_width * original_height\<close> is below \<open>2 ^ 53\<close>: the rounded
  quotient then lies between the integer quotient and the next integer.  The size of
  an image comes from the header of its file, which holds the height in 32 bits at
  most, so the product is below \<open>2 ^ 43\<close> for every image the script can open.
\<close>

theorem target_height_floor_division:
  assumes "0 < original_width" and "0 \<le> original_height"
    and "target_width * original_height < 2 ^ 53"
  shows "compute_target_height target_width original_height original_width
         = Inr (target_width * original_height div original_width)"
  using assms by (intro compute_target_height_floor) (simp_all add: target_width_def)

theorem target_height_floor_division_witness:
  "compute_target_height target_width 3000 4000 = Inr 1440"
  using target_height_floor_division [of 4000 3000] by (simp add: target_width_def)

text \<open>
  C3.  For positive \<open>original_width\<close>, \<open>original_height\<close> and target width \<open>tw\<close>, the
  computed height \<open>th\<close> is not negative and keeps the aspect ratio up to truncation:
  \<open>\<bar>th / tw - original_height / original_width\<bar> < 1 / tw\<close>, in exact rational arithmetic.

  As in C1 the product \<open>tw * original_height\<close> is taken below \<open>2 ^ 53\<close>, where the float
  division followed by truncation is the integer quotient; with the script's width
  1920 that is every height an image file can hold.
\<close>

theorem aspect_ratio_within_truncation:
  assumes "0 < original_width" and "0 < original_height" and "0 < tw"
    and "tw * original_height < 2 ^ 53"
  shows "\<exists>th. compute_target_height tw original_height original_width = Inr th
           \<and> 0 \<le> th
           \<and> \<bar>(of_int th :: rat) / of_int tw - of_int original_height / of_int original_width\<bar>
               < 1 / of_int tw"
proof -
  define a where "a = tw * original_height"
  define th where "th = a div original_width"
  have apos: "0 \<le> a"
    using assms by (simp add: a_def)
  have c: "compute_target_height tw original_height original_width = Inr th"
    unfolding th_def a_def using assms apos
    by (intro compute_target_height_floor) (simp_all add: a_def)
  have th0: "0 \<le> th"
    using apos assms by (simp add: th_def pos_imp_zdiv_nonneg_iff)
  have "a = th * original_width + a mod original_width"
    by (simp add: th_def)
  then have "th * original_width \<le> a" "a < th * original_width + original_width"
    using pos_mod_sign [OF assms(1), of a] pos_mod_bound [OF assms(1), of a] by linarith+
  then have "(of_int (th * original_width) :: rat) \<le> of_int a"
    and "(of_int a :: rat) < of_int (th * original_width + original_width)"
    by (simp_all only: of_int_le_iff of_int_less_iff)
  then have lo: "(of_int th :: rat) * of_int original_width \<le> of_int tw * of_int original_height"
    and hi: "(of_int tw :: rat) * of_int original_height
             < of_int th * of_int original_width + of_int original_width"
    by (simp_all add: a_def)
  have wpos: "(0::rat) < of_int original_width" and tpos: "(0::rat) < of_int tw"
    using assms by simp_all
  have d: "(of_int th :: rat) / of_int tw - of_int original_height / of_int original_width
           = (of_int th * of_int original_width - of_int tw * of_int original_height)
             / (of_int tw * of_int original_width)"
    using wpos tpos by (simp add: field_simps)
  have "\<bar>(of_int th :: rat) * of_int original_width - of_int tw * of_int original_height\<bar>
        < of_int original_width"
    using lo hi by linarith
  then have "\<bar>(of_int th :: rat) * of_int original_width - of_int tw * of_int original_height\<bar>
             / (of_int tw * of_int original_width)
             < of_int original_width / (of_int tw * of_int original_width)"
    using wpos tpos by (intro divide_strict_right_mono) simp_all
  then have "\<bar>(of_int th :: rat) / of_int tw - of_int original_height / of_int original_width\<bar>
             < 1 / of_int tw"
    unfolding d using wpos tpos by (simp add: abs_mult abs_divide)
  then show ?thesis
    using c th0 by blast
qed

theorem aspect_ratio_within_truncation_witness:
  "\<exists>th. compute_target_height 1920 3000 4000 = Inr th \<and> 0 \<le> th
        \<and> \<bar>(of_int th :: rat) / of_int 1920 - of_int 3000 / of_int 4000\<bar> < 1 / of_int 1920"
  using aspect_ratio_within_truncation [of 4000 3000 1920] by simp

text \<open>
  C5.  When the source image already has the target width 1920, the computed target
  height is the source height, the image is resized to its own dimensions, and the
  output, still saved anew, has the dimensions of the source: after a successful run
  the file at the output path decodes to an image of the source's width and height.

  The quotient is then exactly the height, and the float division returns it unchanged
  as long as it is a binary64 value, which every height up to \<open>2 ^ 53\<close> is; an image
  file holds its height in 32 bits at most.  For the dimensions of the output the two
  promises of the library are assumed, as in C4.
\<close>

theorem same_width_keeps_height:
  assumes "image_open lib w input_path = Inr img"
    and "width img = target_width"
    and "0 \<le> height img" and "height img \<le> 2 ^ 53"
  shows "compute_target_height target_width (height img) (width img) = Inr (height img)
         \<and> resize_image lib w
             = resize_and_save lib img (width img, height img)
                 (print (''New size: '' @ str_int target_width @ ''x'' @ str_int (height img))
                    (print (''Original size: '' @ repr_size (width img, height img)) w))
         \<and> ((\<forall>i sz r. resize_lanczos lib i sz = Inr r \<longrightarrow> width r = fst sz \<and> height r = snd sz)
              \<and> (\<forall>i b. encode_png lib i = Inr b \<longrightarrow>
                     (\<exists>i'. decode lib b = Inr i' \<and> width i' = width i \<and> height i' = height i))
              \<and> resize_image lib w = (None, w')
              \<longrightarrow> (\<exists>out. image_open lib w' output_path = Inr out
                         \<and> width out = width img \<and> height out = height img))"
proof -
  have c: "compute_target_height target_width (height img) (width img) = Inr (height img)"
    unfolding assms(2) using assms(3,4)
    by (intro compute_target_height_exact) (simp_all add: target_width_def)
  have r: "resize_image lib w
           = resize_and_save lib img (width img, height img)
               (print (''New size: '' @ str_int target_width @ ''x'' @ str_int (height img))
                  (print (''Original size: '' @ repr_size (width img, height img)) w))"
    using resize_image_steps [OF assms(1) c] by (simp add: assms(2))
  have "\<exists>out. image_open lib w' output_path = Inr out
              \<and> width out = width img \<and> height out = height img"
    if rc: "\<forall>i sz r. resize_lanczos lib i sz = Inr r \<longrightarrow> width r = fst sz \<and> height r = snd sz"
      and cc: "\<forall>i b. encode_png lib i = Inr b \<longrightarrow>
                 (\<exists>i'. decode lib b = Inr i' \<and> width i' = width i \<and> height i' = height i)"
      and run: "resize_image lib w = (None, w')"
  proof -
    obtain img' th out where "image_open lib w input_path = Inr img'"
      and "compute_target_height target_width (height img') (width img') = Inr th"
      and o: "image_open lib w' output_path = Inr out"
      and "width out = target_width" and "height out = th"
      using decoded_output_size [OF rc cc run] by blast
    then have "width out = width img \<and> height out = height img"
      using assms(1,2) c by simp
    with o show ?thesis by blast
  qed
  with c r show ?thesis
    by blast
qed

theorem same_width_keeps_height_witness:
  "compute_target_height target_width 1080 1920 = Inr 1080
   \<and> (\<exists>out. image_open example_lib
               \<lparr>files = [input_path \<mapsto> [1920, 1080], output_path \<mapsto> [1920, 1080]],
                stdout = [''Original size: (1920, 1080)'', ''New size: 1920x1080'',
                          ''Original file size: 0.0 MB'', ''New file size: 0.0 MB'',
                          ''Size reduction: 0.0%'']\<rparr> output_path = Inr out
            \<and> width out = 1920 \<and> height out = 1080)"
proof -
  let ?img = "\<lparr>width = 1920, height = 1080, pixels = []\<rparr>"
  let ?w' = "\<lparr>files = [input_path \<mapsto> [1920, 1080], output_path \<mapsto> [1920, 1080]],
              stdout = [''Original size: (1920, 1080)'', ''New size: 1920x1080'',
                        ''Original file size: 0.0 MB'', ''New file size: 0.0 MB'',
                        ''Size reduction: 0.0%'']\<rparr>"
  have h: "image_open example_lib (example_world [1920, 1080]) input_path = Inr ?img"
    by (simp add: image_open_def example_lib_def example_world_def)
  have t: "compute_target_height target_width (height ?img) (width ?img) = Inr (height ?img)
           \<and> resize_image example_lib (example_world [1920, 1080])
               = resize_and_save example_lib ?img (width ?img, height ?img)
                   (print (''New size: '' @ str_int target_width @ ''x'' @ str_int (height ?img))
                      (print (''Original size: '' @ repr_size (width ?img, height ?img))
                         (example_world [1920, 1080])))
           \<and> ((\<forall>i sz r. resize_lanczos example_lib i sz = Inr r
                            \<longrightarrow> width r = fst sz \<and> height r = snd sz)
                \<and> (\<forall>i b. encode_png example_lib i = Inr b \<longrightarrow>
                       (\<exists>i'. decode example_lib b = Inr i' \<and> width i' = width i
                             \<and> height i' = height i))
                \<and> resize_image example_lib (example_world [1920, 1080]) = (None, ?w')
                \<longrightarrow> (\<exists>out. image_open example_lib ?w' output_path = Inr out
                           \<and> width out = width ?img \<and> height out = height ?img))"
    by (rule same_width_keeps_height [OF h]) (simp_all add: target_width_def)
  have c: "compute_target_height target_width 1080 1920 = Inr 1080"
    using t by simp
  have "\<exists>out. image_open example_lib ?w' output_path = Inr out
              \<and> width out = width ?img \<and> height out = height ?img"
    using t example_lib_resize_contract example_lib_codec_contract example_run_same_width
    by blast
  then have "\<exists>out. image_open example_lib ?w' output_path = Inr out
                   \<and> width out = 1920 \<and> height out = 1080"
    by simp
  with c show ?thesis
    by (rule conjI)
qed

text \<open>
  C7.  When the source image has width 0 the height computation divides by zero,
  nothing catches the exception, and the run ends with \<^verbatim>\<open>ZeroDivisionError\<close> after the
  first line of output.  For a positive width the computation never raises
  \<^verbatim>\<open>ZeroDivisionError\<close>.
\<close>

theorem zero_width_divides_by_zero:
  "(image_open lib w input_path = Inr img \<and> width img = 0 \<longrightarrow>
      resize_image lib w
      = (Some ZeroDivisionError,
         print (''Original size: '' @ repr_size (width img, height img)) w))
   \<and> (0 < original_width \<longrightarrow>
        compute_target_height tw original_height original_width \<noteq> Inl ZeroDivisionError)"
proof -
  have "resize_image lib w
        = (Some ZeroDivisionError,
           print (''Original size: '' @ repr_size (width img, height img)) w)"
    if "image_open lib w input_path = Inr img" and "width img = 0"
    using that by (simp add: resize_image_def compute_target_height_zero_width)
  moreover have "compute_target_height tw original_height original_width
                 \<noteq> Inl ZeroDivisionError" if "0 < original_width"
    using that by (intro compute_target_height_nonzero_width) simp
  ultimately show ?thesis by blast
qed

theorem zero_width_divides_by_zero_witness:
  "resize_image example_lib (example_world [0, 5])
   = (Some ZeroDivisionError,
      print (''Original size: '' @ repr_size (0, 5)) (example_world [0, 5]))
   \<and> compute_target_height 1920 3000 4000 \<noteq> Inl ZeroDivisionError"
proof -
  have "image_open example_lib (example_world [0, 5]) input_path
        = Inr \<lparr>width = 0, height = 5, pixels = []\<rparr>"
    by (simp add: image_open_def example_lib_def example_world_def)
  then show ?thesis
    using zero_width_divides_by_zero
      [of example_lib "example_world [0, 5]" "\<lparr>width = 0, height = 5, pixels = []\<rparr>"
          4000 1920 3000]
    by simp
qed

text \<open>
  C10.  There are images of positive width whose computed target height is 0: every
  image with \<open>0 \<le> target_width * height < width\<close> (and that product below \<open>2 ^ 53\<close>), such
  as one of 4000 by 1 pixels.  No check stands between the computation and the resize:
  the script prints the size \<^verbatim>\<open>1920x0\<close> and asks the library for a resize to height 0, and
  if the library refuses, its exception ends the run.
\<close>

theorem zero_height_reaches_resize:
  assumes "image_open lib w input_path = Inr img"
    and "0 \<le> height img"
    and "target_width * height img < width img"
    and "target_width * height img < 2 ^ 53"
  shows "compute_target_height target_width (height img) (width img) = Inr 0
         \<and> resize_image lib w
             = resize_and_save lib img (target_width, 0)
                 (print (''New size: '' @ str_int target_width @ ''x'' @ str_int 0)
                    (print (''Original size: '' @ repr_size (width img, height img)) w))
         \<and> (\<forall>e. resize_lanczos lib img (target_width, 0) = Inl e
                \<longrightarrow> fst (resize_image lib w) = Some e)"
proof -
  have a: "0 \<le> target_width * height img"
    using assms(2) by (simp add: target_width_def)
  then have "0 < width img"
    using assms(3) by simp
  then have "compute_target_height target_width (height img) (width img)
             = Inr (target_width * height img div width img)"
    using a assms(4) by (intro compute_target_height_floor)
  then have c: "compute_target_height target_width (height img) (width img) = Inr 0"
    using a assms(3) by (simp add: div_pos_pos_trivial)
  note r = resize_image_steps [OF assms(1) c]
  have "fst (resize_image lib w) = Some e" if "resize_lanczos lib img (target_width, 0) = Inl e"
    for e
    using that by (simp add: r resize_and_save_def)
  then show ?thesis
    using c r by blast
qed

theorem zero_height_reaches_resize_witness:
  "compute_target_height target_width 1 4000 = Inr 0
   \<and> fst (resize_image example_lib (example_world [4000, 1])) = Some ValueError"
proof -
  let ?img = "\<lparr>width = 4000, height = 1, pixels = []\<rparr>"
  have h: "image_open example_lib (example_world [4000, 1]) input_path = Inr ?img"
    by (simp add: image_open_def example_lib_def example_world_def)
  have t: "compute_target_height target_width (height ?img) (width ?img) = Inr 0
           \<and> resize_image example_lib (example_world [4000, 1])
               = resize_and_save example_lib ?img (target_width, 0)
                   (print (''New size: '' @ str_int target_width @ ''x'' @ str_int 0)
                      (print (''Original size: '' @ repr_size (width ?img, height ?img))
                         (example_world [4000, 1])))
           \<and> (\<forall>e. resize_lanczos example_lib ?img (target_width, 0) = Inl e
                  \<longrightarrow> fst (resize_image example_lib (example_world [4000, 1])) = Some e)"
    by (rule zero_height_reaches_resize [OF h]) (simp_all add: target_width_def)
  have c: "compute_target_height target_width 1 4000 = Inr 0"
    using t by simp
  have "resize_lanczos example_lib ?img (target_width, 0) = Inl ValueError"
    by (simp add: example_lib_def)
  with t have "fst (resize_image example_lib (example_world [4000, 1])) = Some ValueError"
    by blast
  with c show ?thesis
    by (rule conjI)
qed

subsection \<open>Files\<close>

text \<open>
  C2.  If the source file does not exist, the run ends with \<^verbatim>\<open>FileNotFoundError\<close> and the
  world is as it was before: no file has been created or changed, the output file
  included, and nothing has been printed.
\<close>

theorem missing_source_fails_first:
  assumes "files w input_path = None"
  shows "resize_image lib w = (Some FileNotFoundError, w)"
  using assms by (simp add: resize_image_def image_open_def)

theorem missing_source_fails_first_witness:
  "resize_image example_lib stale_world = (Some FileNotFoundError, stale_world)
   \<and> files stale_world output_path = Some [7, 7]"
proof -
  have "files stale_world input_path = None"
    by (simp add: stale_world_def input_output_distinct)
  then have "resize_image example_lib stale_world = (Some FileNotFoundError, stale_world)"
    by (rule missing_source_fails_first)
  then show ?thesis
    by (simp add: stale_world_def)
qed

text \<open>
  C8.  Whatever the outcome of a run, the source file is afterwards what it was before,
  and so is every file other than the one at the output path.
\<close>

theorem source_file_untouched:
  assumes "resize_image lib w = (r, w')"
  shows "files w' input_path = files w input_path
         \<and> (\<forall>p. p \<noteq> output_path \<longrightarrow> files w' p = files w p)"
proof -
  have "w' = snd (resize_image lib w)"
    using assms by simp
  then show ?thesis
    using input_output_distinct by (simp add: resize_image_frame)
qed

theorem source_file_untouched_witness:
  "files (snd (resize_image example_lib (example_world [4000, 3000, 0, 0, 0, 0, 0, 0]))) input_path
   = Some [4000, 3000, 0, 0, 0, 0, 0, 0]
   \<and> files (snd (resize_image example_lib (example_world [4000, 3000, 0, 0, 0, 0, 0, 0])))
        ''assets/images/logo.png'' = None"
proof -
  let ?w = "example_world [4000, 3000, 0, 0, 0, 0, 0, 0]"
  have "resize_image example_lib ?w
        = (fst (resize_image example_lib ?w), snd (resize_image example_lib ?w))"
    by simp
  from source_file_untouched [OF this]
  have "files (snd (resize_image example_lib ?w)) input_path = files ?w input_path"
    and "files (snd (resize_image example_lib ?w)) ''assets/images/logo.png''
         = files ?w ''assets/images/logo.png''"
    by (simp_all add: output_path_def)
  then show ?thesis
    by (simp add: example_world_def input_path_def)
qed

text \<open>
  C6.  The output file depends on the source file only.  With the encoder a function
  of the image, two runs that start from the same source file, whatever else the two
  worlds hold, either both fail or both succeed, and when they succeed they leave the
  same bytes at the output path.
\<close>

theorem same_source_same_output:
  assumes "files w1 input_path = files w2 input_path"
    and "resize_image lib w1 = (None, w1')"
  shows "\<exists>w2'. resize_image lib w2 = (None, w2')
               \<and> files w2' output_path = files w1' output_path"
proof -
  have "fst (resize_image lib w1) = None" and "snd (resize_image lib w1) = w1'"
    using assms(2) by simp_all
  then have "fst (resize_image lib w2) = None"
    and "files (snd (resize_image lib w2)) output_path = files w1' output_path"
    using resize_image_outcome [OF assms(1), of lib] by simp_all
  then show ?thesis
    by (metis prod.collapse)
qed

theorem same_source_same_output_witness:
  "\<exists>w2'. resize_image example_lib
            \<lparr>files = [input_path \<mapsto> [4000, 3000, 0, 0, 0, 0, 0, 0], output_path \<mapsto> [7, 7]],
             stdout = [''earlier'']\<rparr> = (None, w2')
         \<and> files w2' output_path = Some [1920, 1440]"
proof -
  let ?w2 = "\<lparr>files = [input_path \<mapsto> [4000, 3000, 0, 0, 0, 0, 0, 0], output_path \<mapsto> [7, 7]],
              stdout = [''earlier'']\<rparr>"
  have "files (example_world [4000, 3000, 0, 0, 0, 0, 0, 0]) input_path = files ?w2 input_path"
    using input_output_distinct by (simp add: example_world_def)
  from same_source_same_output [OF this example_run] show ?thesis
    by simp
qed

text \<open>
  C4.  After a successful run, decoding the file at the output path gives an image of
  width 1920 and of the height computed from the source image.

  Two facts about the library are needed and assumed: a resize that succeeds returns
  an image of the requested size, and decoding what the encoder wrote gives back an
  image of the encoded size.
\<close>

theorem output_decodes_to_target_size:
  assumes resize_contract:
      "\<forall>img sz r. resize_lanczos lib img sz = Inr r \<longrightarrow> width r = fst sz \<and> height r = snd sz"
    and codec_contract:
      "\<forall>img b. encode_png lib img = Inr b \<longrightarrow>
         (\<exists>img'. decode lib b = Inr img' \<and> width img' = width img \<and> height img' = height img)"
    and run: "resize_image lib w = (None, w')"
  shows "\<exists>img th out.
           image_open lib w input_path = Inr img
         \<and> compute_target_height target_width (height img) (width img) = Inr th
         \<and> image_open lib w' output_path = Inr out
         \<and> width out = target_width \<and> height out = th"
proof -
  from run obtain img th resized_img b where
    o: "image_open lib w input_path = Inr img"
    and c: "compute_target_height target_width (height img) (width img) = Inr th"
    and rs: "resize_lanczos lib img (target_width, th) = Inr resized_img"
    and en: "encode_png lib resized_img = Inr b"
    and rp: "report_sizes
       ((print (''New size: '' @ str_int target_width @ ''x'' @ str_int th)
           (print (''Original size: '' @ repr_size (width img, height img)) w))
        \<lparr>files := (files w)(output_path \<mapsto> b)\<rparr>) = (None, w')"
    by (rule successful_run)
  have "files w' = (files w)(output_path \<mapsto> b)"
    using report_sizes_result_files [OF rp] by simp
  then have f: "files w' output_path = Some b"
    by simp
  have sz: "width resized_img = target_width" "height resized_img = th"
    using resize_contract rs by fastforce+
  obtain out where "decode lib b = Inr out" "width out = width resized_img"
    "height out = height resized_img"
    using codec_contract en by blast
  then have "image_open lib w' output_path = Inr out \<and> width out = target_width \<and> height out = th"
    using f sz by (simp add: image_open_def)
  then show ?thesis
    using o c by blast
qed

theorem output_decodes_to_target_size_witness:
  "\<exists>img th out.
     image_open example_lib (example_world [4000, 3000, 0, 0, 0, 0, 0, 0]) input_path = Inr img
   \<and> compute_target_height target_width (height img) (width img) = Inr th
   \<and> image_open example_lib
        \<lparr>files = [input_path \<mapsto> [4000, 3000, 0, 0, 0, 0, 0, 0], output_path \<mapsto> [1920, 1440]],
         stdout = [''Original size: (4000, 3000)'', ''New size: 1920x1440'',
                   ''Original file size: 0.0 MB'', ''New file size: 0.0 MB'',
                   ''Size reduction: 75.0%'']\<rparr> output_path = Inr out
   \<and> width out = target_width \<and> height out = th"
  by (rule output_decodes_to_target_size
        [OF example_lib_resize_contract example_lib_codec_contract example_run])

subsection \<open>Console output\<close>

text \<open>
  C9.  A successful run prints exactly five lines, in this order: the original size as
  a pair, the new size as \<^verbatim>\<open>1920xH\<close>, the original and the new file size in MB and the
  size reduction in percent, each of the three numbers with one decimal.  The MB
  figures are the byte counts divided by \<open>1024 * 1024\<close>, the percentage is
  \<open>(original_size - new_size) / original_size * 100\<close>, both in float arithmetic.
\<close>

theorem console_output_lines:
  assumes "resize_image lib w = (None, w')"
  shows "\<exists>img th original_size new_size original_mb new_mb ratio.
           image_open lib w input_path = Inr img
         \<and> compute_target_height target_width (height img) (width img) = Inr th
         \<and> getsize w' input_path = Inr original_size
         \<and> getsize w' output_path = Inr new_size
         \<and> int_true_divide original_size (1024 * 1024) = Inr original_mb
         \<and> int_true_divide new_size (1024 * 1024) = Inr new_mb
         \<and> int_true_divide (original_size - new_size) original_size = Inr ratio
         \<and> stdout w' = stdout w @
             [''Original size: ('' @ str_int (width img) @ '', '' @ str_int (height img) @ '')'',
              ''New size: 1920x'' @ str_int th,
              ''Original file size: '' @ format_1f original_mb @ '' MB'',
              ''New file size: '' @ format_1f new_mb @ '' MB'',
              ''Size reduction: '' @ format_1f (float_mul ratio (Finite False 100)) @ ''%'']"
proof -
  from assms obtain img th resized_img b where
    o: "image_open lib w input_path = Inr img"
    and c: "compute_target_height target_width (height img) (width img) = Inr th"
    and rs: "resize_lanczos lib img (target_width, th) = Inr resized_img"
    and en: "encode_png lib resized_img = Inr b"
    and rp: "report_sizes
       ((print (''New size: '' @ str_int target_width @ ''x'' @ str_int th)
           (print (''Original size: '' @ repr_size (width img, height img)) w))
        \<lparr>files := (files w)(output_path \<mapsto> b)\<rparr>) = (None, w')"
    by (rule successful_run)
  let ?w3 = "(print (''New size: '' @ str_int target_width @ ''x'' @ str_int th)
           (print (''Original size: '' @ repr_size (width img, height img)) w))
        \<lparr>files := (files w)(output_path \<mapsto> b)\<rparr>"
  obtain original_size new_size original_mb new_mb ratio where
    g1: "getsize ?w3 input_path = Inr original_size"
    and g2: "getsize ?w3 output_path = Inr new_size"
    and d1: "int_true_divide original_size (1024 * 1024) = Inr original_mb"
    and d2: "int_true_divide new_size (1024 * 1024) = Inr new_mb"
    and d3: "int_true_divide (original_size - new_size) original_size = Inr ratio"
    using report_sizes_success [OF rp] by blast
  have w': "w' = print (''Size reduction: '' @ format_1f (float_mul ratio (Finite False 100)) @ ''%'')
              (print (''New file size: '' @ format_1f new_mb @ '' MB'')
                 (print (''Original file size: '' @ format_1f original_mb @ '' MB'') ?w3))"
    using report_sizes_steps [OF g1 g2 d1 d2 d3] rp by simp
  have tw: "str_int target_width = ''1920''"
    by code_simp
  have "getsize w' input_path = Inr original_size" "getsize w' output_path = Inr new_size"
    using g1 g2 by (simp_all add: w' getsize_def)
  moreover have "stdout w' = stdout w @
             [''Original size: ('' @ str_int (width img) @ '', '' @ str_int (height img) @ '')'',
              ''New size: 1920x'' @ str_int th,
              ''Original file size: '' @ format_1f original_mb @ '' MB'',
              ''New file size: '' @ format_1f new_mb @ '' MB'',
              ''Size reduction: '' @ format_1f (float_mul ratio (Finite False 100)) @ ''%'']"
    by (simp add: w' tw repr_size_def)
  ultimately show ?thesis
    using o c d1 d2 d3 by blast
qed

theorem console_output_lines_witness:
  "\<exists>img th original_size new_size original_mb new_mb ratio.
     image_open example_lib (example_world [4000, 3000, 0, 0, 0, 0, 0, 0]) input_path = Inr img
   \<and> compute_target_height target_width (height img) (width img) = Inr th
   \<and> getsize \<lparr>files = [input_path \<mapsto> [4000, 3000, 0, 0, 0, 0, 0, 0],
                        output_path \<mapsto> [1920, 1440]],
               stdout = [''Original size: (4000, 3000)'', ''New size: 1920x1440'',
                         ''Original file size: 0.0 MB'', ''New file size: 0.0 MB'',
                         ''Size reduction: 75.0%'']\<rparr> input_path = Inr original_size
   \<and> getsize \<lparr>files = [input_path \<mapsto> [4000, 3000, 0, 0, 0, 0, 0, 0],
                        output_path \<mapsto> [1920, 1440]],
               stdout = [''Original size: (4000, 3000)'', ''New size: 1920x1440'',
                         ''Original file size: 0.0 MB'', ''New file size: 0.0 MB'',
                         ''Size reduction: 75.0%'']\<rparr> output_path = Inr new_size
   \<and> int_true_divide original_size (1024 * 1024) = Inr original_mb
   \<and> int_true_divide new_size (1024 * 1024) = Inr new_mb
   \<and> int_true_divide (original_size - new_size) original_size = Inr ratio
   \<and> [''Original size: (4000, 3000)'', ''New size: 1920x1440'',
       ''Original file size: 0.0 MB'', ''New file size: 0.0 MB'',
       ''Size reduction: 75.0%'']
     = [''Original size: ('' @ str_int (width img) @ '', '' @ str_int (height img) @ '')'',
        ''New size: 1920x'' @ str_int th,
        ''Original file size: '' @ format_1f original_mb @ '' MB'',
        ''New file size: '' @ format_1f new_mb @ '' MB'',
        ''Size reduction: '' @ format_1f (float_mul ratio (Finite False 100)) @ ''%'']"
  using console_output_lines [OF example_run] by (simp add: example_world_def)

end
